theory Spec2Isabelle
  imports Main "HOL-Library.Sublist"
begin

section \<open>The fragment of TIR the walkers act on\<close>

text \<open>
  Modelled from the spec: the node types of TVM's tensor IR, which the constraint layer of
  \<^verbatim>\<open>src/transform/common\<close> walks and which this repository does not contain, with the fields
  the spec lists (condition/then/else, loop min/extent/kind/body, let var/value/body,
  attribute key/node/value/body, assert condition/message/body, while condition/body). The
  fragment has every node kind that \<^verbatim>\<open>ConstrVisitor\<close> and \<^verbatim>\<open>ConstrMutator\<close> override, the
  operators that \<^verbatim>\<open>constraint.h\<close> builds facts with, and leaves. A \<^verbatim>\<open>tir::Var\<close> is identified
  by its name and data type.
\<close>

datatype DataType = dt_Bool | dt_Int nat | dt_UInt nat | dt_Handle

datatype tvar = TVar (name_hint: string) (var_dtype: DataType)

datatype expr =
    Var tvar
  | IntImm DataType int
  | StringImm string
  | Add expr expr
  | EQ expr expr
  | GE expr expr
  | LT expr expr
  | GT expr expr
  | And expr expr
  | tir_Not expr
  | Select expr expr expr
  | Call DataType string "expr list"

text \<open>\<^verbatim>\<open>Range::FromMinExtent(min, extent)\<close>: a range object holds \<^verbatim>\<open>min\<close> and \<^verbatim>\<open>extent\<close>.\<close>

datatype Range = FromMinExtent (range_min: expr) (range_extent: expr)

datatype IterVar = IterVar (iv_var: tvar) (thread_tag: string)

text \<open>
  The payload \<^verbatim>\<open>op->node\<close> of an attribute statement is an untyped object reference; the
  walkers downcast it to \<^verbatim>\<open>PrimExpr\<close> or \<^verbatim>\<open>IterVar\<close>, and the cast fails on anything else.
\<close>

datatype ObjectRef = ExprRef expr | IterVarRef IterVar | StringRef string

text \<open>
  The attribute key is a string that the walkers compare with three constants of TVM
  (\<^verbatim>\<open>tir::attr::tilelang_assume\<close>, \<^verbatim>\<open>thread_extent\<close>, \<^verbatim>\<open>virtual_thread\<close>); the type lists
  these three and any other key.
\<close>

datatype attr_key = tilelang_assume | thread_extent | virtual_thread | other_key string

datatype ForKind = kSerial | kParallel | kVectorized | kUnrolled | kThreadBinding

datatype stmt =
    LetStmt tvar expr stmt
  | AttrStmt ObjectRef attr_key expr stmt
  | AssertStmt expr expr stmt
  | IfThenElse expr stmt "stmt option"
  | For tvar expr expr ForKind stmt "IterVar option" "(string \<times> string) list"
  | While expr stmt
  | Evaluate expr

text \<open>
  Modelled from the spec: \<^verbatim>\<open>PrimExpr::dtype()\<close>, \<^verbatim>\<open>tir::make_const\<close> and \<^verbatim>\<open>tir::make_zero\<close> of
  TVM. \<^verbatim>\<open>make_zero\<close> gives the lower end \<open>0\<close> of the range \<open>[0, extentValue)\<close> of a thread
  extent, in the type of the extent; \<^verbatim>\<open>make_const\<close> gives the \<open>0\<close> of the fact \<open>extent > 0\<close>
  of a loop: TVM's \<^verbatim>\<open>operator>(const PrimExpr& a, int b)\<close> compares \<^verbatim>\<open>a\<close> with the constant
  \<^verbatim>\<open>b\<close> of the type of \<^verbatim>\<open>a\<close>.
\<close>

fun dtype :: "expr \<Rightarrow> DataType" where
  "dtype (Var v) = var_dtype v"
| "dtype (IntImm t _) = t"
| "dtype (StringImm _) = dt_Handle"
| "dtype (Add a _) = dtype a"
| "dtype (EQ _ _) = dt_Bool"
| "dtype (GE _ _) = dt_Bool"
| "dtype (LT _ _) = dt_Bool"
| "dtype (GT _ _) = dt_Bool"
| "dtype (And _ _) = dt_Bool"
| "dtype (tir_Not _) = dt_Bool"
| "dtype (Select _ t _) = dtype t"
| "dtype (Call t _ _) = t"

definition make_const :: "DataType \<Rightarrow> int \<Rightarrow> expr" where
  "make_const t v = IntImm t v"

definition make_zero :: "DataType \<Rightarrow> expr" where
  "make_zero t = make_const t 0"

section \<open>constraint.h: Constr and ConstrSet\<close>

text \<open>
  \<^verbatim>\<open>struct Constr\<close> is a hand-written tagged union: the field \<^verbatim>\<open>kind\<close> says which of
  \<^verbatim>\<open>value\<close>, \<^verbatim>\<open>var\<close> and \<^verbatim>\<open>range\<close> are set. Its three constructors (lines 32 to 37) are the
  three constructors below, each carrying the fields it initialises; \<^verbatim>\<open>is_assume\<close> is
  given to the first one only and is \<^verbatim>\<open>false\<close> by its member initialiser otherwise.
\<close>

datatype Kind = kConstr | kBindValue | kBindRange

datatype Constr =
    ConstrExpr expr bool
  | ConstrBindValue tvar expr
  | ConstrBindRange tvar Range

fun kind :: "Constr \<Rightarrow> Kind" where
  "kind (ConstrExpr _ _) = kConstr"
| "kind (ConstrBindValue _ _) = kBindValue"
| "kind (ConstrBindRange _ _) = kBindRange"

fun is_assume :: "Constr \<Rightarrow> bool" where
  "is_assume (ConstrExpr _ a) = a"
| "is_assume (ConstrBindValue _ _) = False"
| "is_assume (ConstrBindRange _ _) = False"

text \<open>
  \<^verbatim>\<open>ToGenericConstr\<close>: the \<^verbatim>\<open>switch\<close> over \<^verbatim>\<open>kind\<close>. The overloaded operators of
  \<^verbatim>\<open>tvm/tir/op.h\<close> (\<^verbatim>\<open>==\<close>, \<^verbatim>\<open>>=\<close>, \<^verbatim>\<open><\<close>, \<^verbatim>\<open>+\<close>, and \<^verbatim>\<open>>\<close> in the walkers) are read as the nodes
  they denote; what TVM simplifies when it builds a node from constant operands is TVM's
  and is not modelled. The code after the \<^verbatim>\<open>switch\<close> (\<^verbatim>\<open>LOG(FATAL)\<close>) is reached by no
  value of the enumeration.
\<close>

fun ToGenericConstr :: "Constr \<Rightarrow> expr" where
  "ToGenericConstr (ConstrExpr val _) = val"
| "ToGenericConstr (ConstrBindValue v val) = EQ (Var v) val"
| "ToGenericConstr (ConstrBindRange v r) =
     And (GE (Var v) (range_min r)) (LT (Var v) (Add (range_min r) (range_extent r)))"

text \<open>
  \<^verbatim>\<open>Substitute\<close>: \<^verbatim>\<open>Constr(tir::Substitute(ToGenericConstr(), subs))\<close>. TVM's substitution
  is a parameter \<open>subst\<close>; the one-argument call of the first constructor leaves
  \<^verbatim>\<open>is_assume\<close> at its default \<^verbatim>\<open>false\<close>.
\<close>

definition Substitute ::
  "((tvar \<rightharpoonup> expr) \<Rightarrow> expr \<Rightarrow> expr) \<Rightarrow> (tvar \<rightharpoonup> expr) \<Rightarrow> Constr \<Rightarrow> Constr" where
  "Substitute subst subs c = ConstrExpr (subst subs (ToGenericConstr c)) False"

text \<open>
  The analyzer (\<^verbatim>\<open>arith::Analyzer\<close>) is TVM's. The layer uses a default-constructed
  analyzer, three operations that update it and one query; they are the fields of a record
  over an arbitrary type \<open>'az\<close> of analyzer states.
\<close>

record 'az Analyzer =
  az_new :: 'az
  EnterConstraint :: "expr \<Rightarrow> 'az \<Rightarrow> 'az"
  Bind_value :: "tvar \<Rightarrow> expr \<Rightarrow> 'az \<Rightarrow> 'az"
  Bind_range :: "tvar \<Rightarrow> Range \<Rightarrow> 'az \<Rightarrow> 'az"
  az_CanProve :: "'az \<Rightarrow> expr \<Rightarrow> bool"

text \<open>\<^verbatim>\<open>Constr::Populate(analyzer)\<close> updates the analyzer passed by reference.\<close>

fun Populate :: "'az Analyzer \<Rightarrow> Constr \<Rightarrow> 'az \<Rightarrow> 'az" where
  "Populate A (ConstrExpr val _) az = EnterConstraint A val az"
| "Populate A (ConstrBindValue v val) az = Bind_value A v val az"
| "Populate A (ConstrBindRange v r) az = Bind_range A v r az"

record ConstrSet =
  constrs :: "Constr list"

definition ConstrSet_Substitute ::
  "((tvar \<rightharpoonup> expr) \<Rightarrow> expr \<Rightarrow> expr) \<Rightarrow> (tvar \<rightharpoonup> expr) \<Rightarrow> ConstrSet \<Rightarrow> ConstrSet" where
  "ConstrSet_Substitute subst subs S = \<lparr>constrs = map (Substitute subst subs) (constrs S)\<rparr>"

text \<open>The loop \<^verbatim>\<open>for (const auto &c : constrs_) c.Populate(analyzer)\<close>, front to back.\<close>

fun Populate_loop :: "'az Analyzer \<Rightarrow> Constr list \<Rightarrow> 'az \<Rightarrow> 'az" where
  "Populate_loop A [] az = az"
| "Populate_loop A (c # cs) az = Populate_loop A cs (Populate A c az)"

definition ConstrSet_Populate :: "'az Analyzer \<Rightarrow> ConstrSet \<Rightarrow> 'az \<Rightarrow> 'az" where
  "ConstrSet_Populate A S az = Populate_loop A (constrs S) az"

text \<open>
  \<^verbatim>\<open>CanProve\<close> declares a local analyzer, hands it by reference to \<^verbatim>\<open>Populate\<close> and asks
  it. What such a call can reach is made explicit: the set the method is called on and the
  analyzers that are alive at the call, the caller's among them. A reference to an analyzer
  is its place in the list; the local analyzer of a call is put at the end when it is
  declared and is removed when the call returns.
\<close>

record 'az objects =
  constr_set :: ConstrSet
  analyzers :: "'az list"

text \<open>
  \<^verbatim>\<open>Populate(analyzer)\<close> with the analyzer given by reference: the object at \<open>a\<close> is updated.
  A C++ reference points to a live object, so \<open>a\<close> is a place of the list.
\<close>

definition Populate_ref :: "'az Analyzer \<Rightarrow> nat \<Rightarrow> 'az objects \<Rightarrow> 'az objects" where
  "Populate_ref A a \<sigma> =
     \<sigma>\<lparr>analyzers := (analyzers \<sigma>)[a := ConstrSet_Populate A (constr_set \<sigma>) (analyzers \<sigma> ! a)]\<rparr>"

definition CanProve :: "'az Analyzer \<Rightarrow> expr \<Rightarrow> 'az objects \<Rightarrow> bool \<times> 'az objects" where
  "CanProve A expr \<sigma> =
     (let analyzer = length (analyzers \<sigma>);
          \<sigma>1 = \<sigma>\<lparr>analyzers := analyzers \<sigma> @ [az_new A]\<rparr>;
          \<sigma>2 = Populate_ref A analyzer \<sigma>1;
          verdict = az_CanProve A (analyzers \<sigma>2 ! analyzer) expr
      in (verdict, \<sigma>2\<lparr>analyzers := take analyzer (analyzers \<sigma>2)\<rparr>))"

definition AddConstr :: "Constr \<Rightarrow> ConstrSet \<Rightarrow> ConstrSet" where
  "AddConstr c S = S\<lparr>constrs := constrs S @ [c]\<rparr>"

definition Extend :: "ConstrSet \<Rightarrow> ConstrSet \<Rightarrow> ConstrSet" where
  "Extend other S = S\<lparr>constrs := constrs S @ constrs other\<rparr>"

section \<open>Walks: the constraint stack, scope guards and what a subclass observes\<close>

text \<open>
  Both walkers hold one piece of state, \<^verbatim>\<open>std::vector<Constr> constr_stack_\<close>, and are
  base classes: a pass overrides per-node visits and reads the stack there. A walk is a
  function of the stack that returns its outcome (an error, where a checked cast or an
  index of TVM throws), the list of node visits in the order they happen, each with the
  stack at that moment (what an overriding subclass can observe), and the stack afterwards.
\<close>

datatype error = DowncastError | IndexError

datatype event = ExprEvent expr "Constr list" | StmtEvent stmt "Constr list"

fun stack_at :: "event \<Rightarrow> Constr list" where
  "stack_at (ExprEvent e stk) = stk"
| "stack_at (StmtEvent s stk) = stk"

type_synonym 'a walk = "Constr list \<Rightarrow> (error + 'a) \<times> event list \<times> Constr list"

fun outcome :: "(error + 'a) \<times> event list \<times> Constr list \<Rightarrow> error + 'a" where
  "outcome (r, evs, stk) = r"

fun events :: "(error + 'a) \<times> event list \<times> Constr list \<Rightarrow> event list" where
  "events (r, evs, stk) = evs"

fun stack_after :: "(error + 'a) \<times> event list \<times> Constr list \<Rightarrow> Constr list" where
  "stack_after (r, evs, stk) = stk"

definition wreturn :: "'a \<Rightarrow> 'a walk" where
  "wreturn x stk = (Inr x, [], stk)"

definition wthrow :: "error \<Rightarrow> 'a walk" where
  "wthrow e stk = (Inl e, [], stk)"

text \<open>Sequencing: an exception of the first part skips the second.\<close>

definition wbind :: "'a walk \<Rightarrow> ('a \<Rightarrow> 'b walk) \<Rightarrow> 'b walk" where
  "wbind m f stk =
     (case m stk of
        (Inl e, evs, stk') \<Rightarrow> (Inl e, evs, stk')
      | (Inr x, evs, stk') \<Rightarrow> (case f x stk' of (r, evs', stk'') \<Rightarrow> (r, evs @ evs', stk'')))"

text \<open>
  \<^verbatim>\<open>MakeGuard(args...)\<close> is \<^verbatim>\<open>constr_stack_.push_back(Constr(args...))\<close>; the destructor of the
  \<^verbatim>\<open>Guard\<close> it returns is \<^verbatim>\<open>constrs.pop_back()\<close>. The guard is a local of a block: its
  destructor runs when the block is left, by its end or by an exception passing through.
  \<open>with_guard c m\<close> is such a block, with body \<open>m\<close>. (\<^verbatim>\<open>pop_back\<close> of an empty vector is
  undefined in C++ and leaves the list empty here; no walk gets there, as every guard pops
  after its own push.)
\<close>

definition MakeGuard :: "Constr \<Rightarrow> Constr list \<Rightarrow> Constr list" where
  "MakeGuard c stk = stk @ [c]"

definition pop_back :: "Constr list \<Rightarrow> Constr list" where
  "pop_back stk = butlast stk"

definition with_guard :: "Constr \<Rightarrow> 'a walk \<Rightarrow> 'a walk" where
  "with_guard c m stk =
     (case m (MakeGuard c stk) of (r, evs, stk') \<Rightarrow> (r, evs, pop_back stk'))"

definition observe :: "(Constr list \<Rightarrow> event) \<Rightarrow> unit walk" where
  "observe ev stk = (Inr (), [ev stk], stk)"

section \<open>constr_visitor.h: ConstrVisitor\<close>

text \<open>
  Modelled from the spec: the default visits of TVM's \<^verbatim>\<open>StmtExprVisitor\<close>, the base class,
  which this repository does not contain. They visit every child of a node once, along the
  structural recursion, in the order of the node's fields (\<open>cv_Base_VisitExpr_node\<close> and
  \<open>cv_VisitArray\<close> here, \<open>cv_Base_VisitStmt_node\<close> below); \<^verbatim>\<open>VisitExpr\<close> and \<^verbatim>\<open>VisitStmt\<close>
  dispatch on the node type to the \<^verbatim>\<open>VisitExpr_\<close> or \<^verbatim>\<open>VisitStmt_\<close> overload of the most derived
  class (\<open>cv_VisitExpr\<close>, \<open>cv_VisitStmt\<close>), which is where an overriding pass sees the node.

  From the source: \<open>cv_VisitIfThenElseExpr\<close> (lines 26 to 36) and \<open>cv_VisitExpr_node\<close>, the
  \<^verbatim>\<open>VisitExpr_\<close> overloads of \<^verbatim>\<open>ConstrVisitor\<close> for \<^verbatim>\<open>SelectNode\<close> and \<^verbatim>\<open>CallNode\<close> (lines 71 to
  81); every other node kind has the default. \<^verbatim>\<open>op->args[i]\<close> throws when the array is
  shorter.
\<close>

function (sequential) cv_VisitExpr :: "expr \<Rightarrow> unit walk"
and cv_VisitExpr_node :: "expr \<Rightarrow> unit walk"
and cv_Base_VisitExpr_node :: "expr \<Rightarrow> unit walk"
and cv_VisitArray :: "expr list \<Rightarrow> unit walk"
and cv_VisitIfThenElseExpr :: "expr \<Rightarrow> expr \<Rightarrow> expr \<Rightarrow> unit walk"
where
  "cv_VisitExpr e = wbind (observe (ExprEvent e)) (\<lambda>_. cv_VisitExpr_node e)"
| "cv_VisitIfThenElseExpr cond true_value false_value =
     wbind (with_guard (ConstrExpr cond False) (cv_VisitExpr true_value))
       (\<lambda>_. with_guard (ConstrExpr (tir_Not cond) False) (cv_VisitExpr false_value))"
| "cv_VisitExpr_node (Select condition true_value false_value) =
     cv_VisitIfThenElseExpr condition true_value false_value"
| "cv_VisitExpr_node (Call t op args) =
     (if op = ''tir.if_then_else'' then
        (case args of
           a0 # a1 # a2 # _ \<Rightarrow> cv_VisitIfThenElseExpr a0 a1 a2
         | _ \<Rightarrow> wthrow IndexError)
      else cv_Base_VisitExpr_node (Call t op args))"
| "cv_VisitExpr_node e = cv_Base_VisitExpr_node e"
| "cv_VisitArray [] = wreturn ()"
| "cv_VisitArray (a # as) = wbind (cv_VisitExpr a) (\<lambda>_. cv_VisitArray as)"
| "cv_Base_VisitExpr_node (Var v) = wreturn ()"
| "cv_Base_VisitExpr_node (IntImm t n) = wreturn ()"
| "cv_Base_VisitExpr_node (StringImm s) = wreturn ()"
| "cv_Base_VisitExpr_node (Add a b) = wbind (cv_VisitExpr a) (\<lambda>_. cv_VisitExpr b)"
| "cv_Base_VisitExpr_node (EQ a b) = wbind (cv_VisitExpr a) (\<lambda>_. cv_VisitExpr b)"
| "cv_Base_VisitExpr_node (GE a b) = wbind (cv_VisitExpr a) (\<lambda>_. cv_VisitExpr b)"
| "cv_Base_VisitExpr_node (LT a b) = wbind (cv_VisitExpr a) (\<lambda>_. cv_VisitExpr b)"
| "cv_Base_VisitExpr_node (GT a b) = wbind (cv_VisitExpr a) (\<lambda>_. cv_VisitExpr b)"
| "cv_Base_VisitExpr_node (And a b) = wbind (cv_VisitExpr a) (\<lambda>_. cv_VisitExpr b)"
| "cv_Base_VisitExpr_node (tir_Not a) = cv_VisitExpr a"
| "cv_Base_VisitExpr_node (Select condition true_value false_value) =
     wbind (cv_VisitExpr condition) (\<lambda>_.
     wbind (cv_VisitExpr true_value) (\<lambda>_. cv_VisitExpr false_value))"
| "cv_Base_VisitExpr_node (Call t op args) = cv_VisitArray args"
  by pat_completeness auto
termination
  by (relation "measure (\<lambda>x. case x of
          Inl (Inl e) \<Rightarrow> 4 * size e + 2
        | Inl (Inr e) \<Rightarrow> 4 * size e + 1
        | Inr (Inl e) \<Rightarrow> 4 * size e
        | Inr (Inr (Inl es)) \<Rightarrow> 4 * size_list size es + 3
        | Inr (Inr (Inr (c, t, f))) \<Rightarrow> 4 * (size c + size t + size f) + 3)") auto

text \<open>
  \<open>cv_VisitStmt_node\<close> is the \<^verbatim>\<open>VisitStmt_\<close> overloads of \<^verbatim>\<open>ConstrVisitor\<close> (lines 37 to 101);
  \<^verbatim>\<open>Evaluate\<close> has none and takes the default. \<open>cv_Base_VisitStmt_node\<close> is
  \<^verbatim>\<open>Base::VisitStmt_\<close>, the default of TVM modelled as said above: the expressions of the
  node, then its statements.
\<close>

function cv_VisitStmt :: "stmt \<Rightarrow> unit walk"
and cv_VisitStmt_node :: "stmt \<Rightarrow> unit walk"
and cv_Base_VisitStmt_node :: "stmt \<Rightarrow> unit walk"
where
  "cv_VisitStmt s = wbind (observe (StmtEvent s)) (\<lambda>_. cv_VisitStmt_node s)"
| "cv_Base_VisitStmt_node (LetStmt var val body) =
     wbind (cv_VisitExpr val) (\<lambda>_. cv_VisitStmt body)"
| "cv_Base_VisitStmt_node (AttrStmt nd key val body) =
     wbind (cv_VisitExpr val) (\<lambda>_. cv_VisitStmt body)"
| "cv_Base_VisitStmt_node (AssertStmt condition message body) =
     wbind (cv_VisitExpr condition) (\<lambda>_.
     wbind (cv_VisitExpr message) (\<lambda>_. cv_VisitStmt body))"
| "cv_Base_VisitStmt_node (IfThenElse condition then_case else_case) =
     wbind (cv_VisitExpr condition) (\<lambda>_.
     wbind (cv_VisitStmt then_case) (\<lambda>_.
       case else_case of Some e \<Rightarrow> cv_VisitStmt e | None \<Rightarrow> wreturn ()))"
| "cv_Base_VisitStmt_node (For loop_var mn extent k body tb ann) =
     wbind (cv_VisitExpr mn) (\<lambda>_.
     wbind (cv_VisitExpr extent) (\<lambda>_. cv_VisitStmt body))"
| "cv_Base_VisitStmt_node (While condition body) =
     wbind (cv_VisitExpr condition) (\<lambda>_. cv_VisitStmt body)"
| "cv_Base_VisitStmt_node (Evaluate val) = cv_VisitExpr val"
| "cv_VisitStmt_node (LetStmt var val body) =
     with_guard (ConstrBindValue var val) (cv_Base_VisitStmt_node (LetStmt var val body))"
| "cv_VisitStmt_node (AttrStmt nd key val body) =
     (if key = tilelang_assume then
        (case nd of
           ExprRef expr \<Rightarrow>
             with_guard (ConstrExpr expr True)
               (cv_Base_VisitStmt_node (AttrStmt nd key val body))
         | _ \<Rightarrow> wthrow DowncastError)
      else if key = thread_extent \<or> key = virtual_thread then
        (case nd of
           IterVarRef iv \<Rightarrow>
             (let dom = FromMinExtent (make_zero (dtype val)) val
              in with_guard (ConstrBindRange (iv_var iv) dom)
                   (cv_Base_VisitStmt_node (AttrStmt nd key val body)))
         | _ \<Rightarrow> wthrow DowncastError)
      else cv_Base_VisitStmt_node (AttrStmt nd key val body))"
| "cv_VisitStmt_node (AssertStmt condition message body) =
     with_guard (ConstrExpr condition False)
       (cv_Base_VisitStmt_node (AssertStmt condition message body))"
| "cv_VisitStmt_node (IfThenElse condition then_case else_case) =
     wbind (with_guard (ConstrExpr condition False) (cv_VisitStmt then_case)) (\<lambda>_.
       case else_case of
         Some e \<Rightarrow> with_guard (ConstrExpr (tir_Not condition) False) (cv_VisitStmt e)
       | None \<Rightarrow> wreturn ())"
| "cv_VisitStmt_node (For loop_var mn extent k body tb ann) =
     (if k = kParallel \<or> k = kVectorized then
        with_guard (ConstrBindRange loop_var (FromMinExtent mn extent))
          (with_guard (ConstrExpr (GT extent (make_const (dtype extent) 0)) False)
             (cv_Base_VisitStmt_node (For loop_var mn extent k body tb ann)))
      else
        with_guard (ConstrBindRange loop_var (FromMinExtent mn extent))
          (with_guard (ConstrExpr (GT extent (make_const (dtype extent) 0)) False)
             (cv_Base_VisitStmt_node (For loop_var mn extent k body tb ann))))"
| "cv_VisitStmt_node (While condition body) =
     with_guard (ConstrExpr condition False) (cv_VisitStmt body)"
| "cv_VisitStmt_node (Evaluate val) = cv_Base_VisitStmt_node (Evaluate val)"
  by pat_completeness auto
termination
  by (relation "measure (\<lambda>x. case x of
          Inl s \<Rightarrow> 3 * size s + 2
        | Inr (Inl s) \<Rightarrow> 3 * size s + 1
        | Inr (Inr s) \<Rightarrow> 3 * size s)") auto

section \<open>constr_mutator.h: ConstrMutator\<close>

text \<open>
  A visit of the mutator returns a reference. \<^verbatim>\<open>same_as\<close> compares references by the object
  they point to, and the mutator only ever compares the reference a visit returned with the
  reference that was visited. So a returned reference is the node it points to together with
  the answer to that comparison: \<^verbatim>\<open>GetRef(op)\<close> returns the visited object itself, a
  constructor call such as \<^verbatim>\<open>tir::Select(...)\<close> allocates a new object, which is the same as no
  object that existed before.
\<close>

datatype 'a visited = Visited (node: 'a) (same_as: bool)

definition GetRef :: "'a \<Rightarrow> 'a visited" where
  "GetRef op = Visited op True"

definition New :: "'a \<Rightarrow> 'a visited" where
  "New n = Visited n False"

text \<open>
  The visit of a variable stands for the leaves that a pass overrides: \<open>rw\<close> sees the stack
  and the variable and answers \<open>None\<close> to keep the node (the default of TVM's \<^verbatim>\<open>ExprMutator\<close>,
  \<open>no_rewrite\<close>) or \<open>Some e\<close> to put the object \<open>e\<close> in its place.
\<close>

type_synonym rewriter = "Constr list \<Rightarrow> tvar \<Rightarrow> expr option"

definition no_rewrite :: rewriter where
  "no_rewrite stk v = None"

definition visit_var :: "rewriter \<Rightarrow> tvar \<Rightarrow> expr visited walk" where
  "visit_var rw v stk =
     (case rw stk v of
        None \<Rightarrow> (Inr (GetRef (Var v)), [], stk)
      | Some e \<Rightarrow> (Inr (New e), [], stk))"

text \<open>
  Modelled from the spec: the default visits of TVM's \<^verbatim>\<open>StmtExprMutator\<close>, the base class,
  which this repository does not contain (\<open>cm_Base_VisitExpr_node\<close>, \<open>cm_MutateArray\<close>, and
  the visit of \<^verbatim>\<open>Evaluate\<close> below). They rewrite the children of a node in the order of its
  fields and return the node itself when every child came back as the same object, a new
  node built from the rewritten children otherwise; the in-place update that TVM makes of a
  statement it holds the only reference to is left out.

  From the source: \<open>cm_VisitIfThenElseExpr\<close> (lines 29 to 48) and \<open>cm_VisitExpr_node\<close>, the
  \<^verbatim>\<open>VisitExpr_\<close> overloads of \<^verbatim>\<open>ConstrMutator\<close> for \<^verbatim>\<open>SelectNode\<close> and \<^verbatim>\<open>CallNode\<close> (lines 124
  to 135).
\<close>

function (sequential) cm_VisitExpr :: "rewriter \<Rightarrow> expr \<Rightarrow> expr visited walk"
and cm_VisitExpr_node :: "rewriter \<Rightarrow> expr \<Rightarrow> expr visited walk"
and cm_Base_VisitExpr_node :: "rewriter \<Rightarrow> expr \<Rightarrow> expr visited walk"
and cm_MutateArray :: "rewriter \<Rightarrow> expr list \<Rightarrow> (expr list) visited walk"
and cm_VisitIfThenElseExpr :: "rewriter \<Rightarrow> expr \<Rightarrow> expr \<Rightarrow> expr \<Rightarrow> expr visited walk"
where
  "cm_VisitExpr rw e = wbind (observe (ExprEvent e)) (\<lambda>_. cm_VisitExpr_node rw e)"
| "cm_VisitIfThenElseExpr rw cond true_value false_value =
     wbind (cm_VisitExpr rw cond) (\<lambda>new_cond.
     wbind (with_guard (ConstrExpr (node new_cond) False) (cm_VisitExpr rw true_value))
       (\<lambda>new_true_value.
     wbind (with_guard (ConstrExpr (tir_Not (node new_cond)) False)
              (cm_VisitExpr rw false_value))
       (\<lambda>new_false_value.
     if same_as new_cond \<and> same_as new_true_value \<and> same_as new_false_value
     then wreturn (New (Select cond true_value false_value))
     else wreturn (New (Select (node new_cond) (node new_true_value)
                          (node new_false_value))))))"
| "cm_VisitExpr_node rw (Select condition true_value false_value) =
     cm_VisitIfThenElseExpr rw condition true_value false_value"
| "cm_VisitExpr_node rw (Call t op args) =
     (if op = ''tir.if_then_else'' then
        (case args of
           a0 # a1 # a2 # _ \<Rightarrow> cm_VisitIfThenElseExpr rw a0 a1 a2
         | _ \<Rightarrow> wthrow IndexError)
      else cm_Base_VisitExpr_node rw (Call t op args))"
| "cm_VisitExpr_node rw e = cm_Base_VisitExpr_node rw e"
| "cm_MutateArray rw [] = wreturn (GetRef [])"
| "cm_MutateArray rw (a # as) =
     wbind (cm_VisitExpr rw a) (\<lambda>a'.
     wbind (cm_MutateArray rw as) (\<lambda>as'.
     wreturn (Visited (node a' # node as') (same_as a' \<and> same_as as'))))"
| "cm_Base_VisitExpr_node rw (Var v) = visit_var rw v"
| "cm_Base_VisitExpr_node rw (IntImm t n) = wreturn (GetRef (IntImm t n))"
| "cm_Base_VisitExpr_node rw (StringImm s) = wreturn (GetRef (StringImm s))"
| "cm_Base_VisitExpr_node rw (Add a b) =
     wbind (cm_VisitExpr rw a) (\<lambda>a'. wbind (cm_VisitExpr rw b) (\<lambda>b'.
     if same_as a' \<and> same_as b' then wreturn (GetRef (Add a b))
     else wreturn (New (Add (node a') (node b')))))"
| "cm_Base_VisitExpr_node rw (EQ a b) =
     wbind (cm_VisitExpr rw a) (\<lambda>a'. wbind (cm_VisitExpr rw b) (\<lambda>b'.
     if same_as a' \<and> same_as b' then wreturn (GetRef (EQ a b))
     else wreturn (New (EQ (node a') (node b')))))"
| "cm_Base_VisitExpr_node rw (GE a b) =
     wbind (cm_VisitExpr rw a) (\<lambda>a'. wbind (cm_VisitExpr rw b) (\<lambda>b'.
     if same_as a' \<and> same_as b' then wreturn (GetRef (GE a b))
     else wreturn (New (GE (node a') (node b')))))"
| "cm_Base_VisitExpr_node rw (LT a b) =
     wbind (cm_VisitExpr rw a) (\<lambda>a'. wbind (cm_VisitExpr rw b) (\<lambda>b'.
     if same_as a' \<and> same_as b' then wreturn (GetRef (LT a b))
     else wreturn (New (LT (node a') (node b')))))"
| "cm_Base_VisitExpr_node rw (GT a b) =
     wbind (cm_VisitExpr rw a) (\<lambda>a'. wbind (cm_VisitExpr rw b) (\<lambda>b'.
     if same_as a' \<and> same_as b' then wreturn (GetRef (GT a b))
     else wreturn (New (GT (node a') (node b')))))"
| "cm_Base_VisitExpr_node rw (And a b) =
     wbind (cm_VisitExpr rw a) (\<lambda>a'. wbind (cm_VisitExpr rw b) (\<lambda>b'.
     if same_as a' \<and> same_as b' then wreturn (GetRef (And a b))
     else wreturn (New (And (node a') (node b')))))"
| "cm_Base_VisitExpr_node rw (tir_Not a) =
     wbind (cm_VisitExpr rw a) (\<lambda>a'.
     if same_as a' then wreturn (GetRef (tir_Not a))
     else wreturn (New (tir_Not (node a'))))"
| "cm_Base_VisitExpr_node rw (Select condition true_value false_value) =
     wbind (cm_VisitExpr rw condition) (\<lambda>c'.
     wbind (cm_VisitExpr rw true_value) (\<lambda>t'.
     wbind (cm_VisitExpr rw false_value) (\<lambda>f'.
     if same_as c' \<and> same_as t' \<and> same_as f'
     then wreturn (GetRef (Select condition true_value false_value))
     else wreturn (New (Select (node c') (node t') (node f'))))))"
| "cm_Base_VisitExpr_node rw (Call t op args) =
     wbind (cm_MutateArray rw args) (\<lambda>args'.
     if same_as args' then wreturn (GetRef (Call t op args))
     else wreturn (New (Call t op (node args'))))"
  by pat_completeness auto
termination
  by (relation "measure (\<lambda>x. case x of
          Inl (Inl (rw, e)) \<Rightarrow> 4 * size e + 2
        | Inl (Inr (rw, e)) \<Rightarrow> 4 * size e + 1
        | Inr (Inl (rw, e)) \<Rightarrow> 4 * size e
        | Inr (Inr (Inl (rw, es))) \<Rightarrow> 4 * size_list size es + 3
        | Inr (Inr (Inr (rw, c, t, f))) \<Rightarrow> 4 * (size c + size t + size f) + 3)") auto

text \<open>
  \<open>cm_VisitStmt_node\<close>: the \<^verbatim>\<open>VisitStmt_\<close> overloads of \<^verbatim>\<open>ConstrMutator\<close> (lines 50 to 173),
  statement by statement; a guard that is a local of the function body lives until the
  \<^verbatim>\<open>return\<close>. \<^verbatim>\<open>Evaluate\<close> is not overridden and has the default of TVM, as said above.
\<close>

function cm_VisitStmt :: "rewriter \<Rightarrow> stmt \<Rightarrow> stmt visited walk"
and cm_VisitStmt_node :: "rewriter \<Rightarrow> stmt \<Rightarrow> stmt visited walk"
where
  "cm_VisitStmt rw s = wbind (observe (StmtEvent s)) (\<lambda>_. cm_VisitStmt_node rw s)"
| "cm_VisitStmt_node rw (LetStmt var val body) =
     wbind (cm_VisitExpr rw val) (\<lambda>val'.
     with_guard (ConstrBindValue var (node val'))
       (wbind (cm_VisitStmt rw body) (\<lambda>body'.
        if same_as val' \<and> same_as body'
        then wreturn (GetRef (LetStmt var val body))
        else wreturn (New (LetStmt var (node val') (node body'))))))"
| "cm_VisitStmt_node rw (AttrStmt nd key val body) =
     wbind (cm_VisitExpr rw val) (\<lambda>val'.
     wbind (cm_VisitStmt rw body) (\<lambda>body'.
     wbind (if key = tilelang_assume then
              (case nd of
                 ExprRef expr \<Rightarrow> with_guard (ConstrExpr expr True) (wreturn ())
               | _ \<Rightarrow> wthrow DowncastError)
            else if key = thread_extent \<or> key = virtual_thread then
              (case nd of
                 IterVarRef iv \<Rightarrow>
                   (let dom = FromMinExtent (make_zero (dtype (node val'))) (node val')
                    in with_guard (ConstrBindRange (iv_var iv) dom) (wreturn ()))
               | _ \<Rightarrow> wthrow DowncastError)
            else wreturn ()) (\<lambda>_.
     if same_as val' \<and> same_as body'
     then wreturn (GetRef (AttrStmt nd key val body))
     else wreturn (New (AttrStmt nd key (node val') (node body'))))))"
| "cm_VisitStmt_node rw (AssertStmt condition message body) =
     wbind (cm_VisitExpr rw condition) (\<lambda>condition'.
     with_guard (ConstrExpr (node condition') False)
       (wbind (cm_VisitExpr rw message) (\<lambda>message'.
        wbind (cm_VisitStmt rw body) (\<lambda>body'.
        if same_as condition' \<and> same_as message' \<and> same_as body'
        then wreturn (GetRef (AssertStmt condition message body))
        else wreturn (New (AssertStmt (node condition') (node message') (node body')))))))"
| "cm_VisitStmt_node rw (IfThenElse condition then_case else_case) =
     wbind (cm_VisitExpr rw condition) (\<lambda>condition'.
     wbind (with_guard (ConstrExpr (node condition') False) (cm_VisitStmt rw then_case))
       (\<lambda>then_case'.
     case else_case of
       Some e \<Rightarrow>
         wbind (with_guard (ConstrExpr (tir_Not (node condition')) False)
                  (cm_VisitStmt rw e))
           (\<lambda>else_case'.
         if same_as condition' \<and> same_as then_case' \<and> same_as else_case'
         then wreturn (GetRef (IfThenElse condition then_case else_case))
         else wreturn (New (IfThenElse (node condition') (node then_case')
                              (Some (node else_case')))))
     | None \<Rightarrow>
         if same_as condition' \<and> same_as then_case'
         then wreturn (GetRef (IfThenElse condition then_case else_case))
         else wreturn (New (IfThenElse (node condition') (node then_case') None))))"
| "cm_VisitStmt_node rw (For loop_var mn extent k body tb ann) =
     wbind (cm_VisitExpr rw mn) (\<lambda>mn'.
     wbind (cm_VisitExpr rw extent) (\<lambda>extent'.
     wbind (if k = kParallel \<or> k = kVectorized then
              with_guard (ConstrBindRange loop_var (FromMinExtent (node mn') (node extent')))
                (with_guard (ConstrExpr (GT (node extent')
                                (make_const (dtype (node extent')) 0)) False)
                   (cm_VisitStmt rw body))
            else
              with_guard (ConstrBindRange loop_var (FromMinExtent (node mn') (node extent')))
                (with_guard (ConstrExpr (GT (node extent')
                                (make_const (dtype (node extent')) 0)) False)
                   (cm_VisitStmt rw body))) (\<lambda>body'.
     if same_as mn' \<and> same_as extent' \<and> same_as body'
     then wreturn (GetRef (For loop_var mn extent k body tb ann))
     else wreturn (New (For loop_var (node mn') (node extent') k (node body') tb ann)))))"
| "cm_VisitStmt_node rw (While condition body) =
     wbind (cm_VisitExpr rw condition) (\<lambda>condition'.
     wbind (with_guard (ConstrExpr (node condition') False) (cm_VisitStmt rw body)) (\<lambda>body'.
     if same_as condition' \<and> same_as body'
     then wreturn (GetRef (While condition body))
     else wreturn (New (While (node condition') (node body')))))"
| "cm_VisitStmt_node rw (Evaluate val) =
     wbind (cm_VisitExpr rw val) (\<lambda>val'.
     if same_as val' then wreturn (GetRef (Evaluate val))
     else wreturn (New (Evaluate (node val'))))"
  by pat_completeness auto
termination
  by (relation "measure (\<lambda>x. case x of
          Inl (rw, s) \<Rightarrow> 2 * size s + 1
        | Inr (rw, s) \<Rightarrow> 2 * size s)") auto

section \<open>Reading a walk\<close>

text \<open>
  \<open>after w k\<close>: the visits of the walk \<open>w\<close> and, when \<open>w\<close> returned normally with \<open>x\<close>,
  the visits \<open>k x\<close> after them.
\<close>

definition after ::
  "(error + 'a) \<times> event list \<times> Constr list \<Rightarrow> ('a \<Rightarrow> event list) \<Rightarrow> event list" where
  "after w k = events w @ (case outcome w of Inl e \<Rightarrow> [] | Inr x \<Rightarrow> k x)"

text \<open>
  A walk is scoped when, from every stack, it ends with the stack it started with and
  every visit in it sees a stack that extends the one it started with.
\<close>

definition scoped :: "'a walk \<Rightarrow> bool" where
  "scoped m \<longleftrightarrow>
     (\<forall>stk. stack_after (m stk) = stk \<and>
            (\<forall>ev \<in> set (events (m stk)). prefix stk (stack_at ev)))"

text \<open>Trees for the closed examples: \<^verbatim>\<open>select(x > 0, x, 7)\<close> and statements around it.\<close>

definition ex_x :: expr where
  "ex_x = Var (TVar ''x'' (dt_Int 32))"

definition ex_cond :: expr where
  "ex_cond = GT ex_x (IntImm (dt_Int 32) 0)"

definition ex_seven :: expr where
  "ex_seven = IntImm (dt_Int 32) 7"

definition ex_select :: expr where
  "ex_select = Select ex_cond ex_x ex_seven"

definition ex_call :: expr where
  "ex_call = Call (dt_Int 32) ''tir.if_then_else'' [ex_cond, ex_x, ex_seven]"

definition ex_body :: stmt where
  "ex_body = Evaluate ex_x"

definition ex_assert :: stmt where
  "ex_assert = AssertStmt ex_cond (StringImm ''x must be positive'') ex_body"

definition ex_assume :: stmt where
  "ex_assume = AttrStmt (ExprRef ex_cond) tilelang_assume (IntImm (dt_Int 32) 1) ex_body"

definition ex_threads :: stmt where
  "ex_threads =
     AttrStmt (IterVarRef (IterVar (TVar ''tx'' (dt_Int 32)) ''threadIdx.x'')) thread_extent
       (IntImm (dt_Int 32) 128) (Evaluate (Var (TVar ''tx'' (dt_Int 32))))"

definition ex_if :: stmt where
  "ex_if = IfThenElse ex_cond ex_body (Some (Evaluate ex_seven))"

text \<open>
  A tree on which both walks throw: the assume attribute inside the let carries a string
  where the walkers cast to an expression.
\<close>

definition ex_throwing :: stmt where
  "ex_throwing =
     LetStmt (TVar ''y'' (dt_Int 32)) ex_seven
       (AttrStmt (StringRef ''positive'') tilelang_assume (IntImm (dt_Int 32) 1) ex_body)"

text \<open>
  Loops over \<^verbatim>\<open>i\<close> from \<open>0\<close> with the 64-bit extent \<^verbatim>\<open>n\<close>, one per loop kind, and a pass that
  puts \<open>16\<close> in the place of \<^verbatim>\<open>n\<close>.
\<close>

definition ex_n :: expr where
  "ex_n = Var (TVar ''n'' (dt_Int 64))"

definition ex_i :: tvar where
  "ex_i = TVar ''i'' (dt_Int 64)"

definition ex_for :: "ForKind \<Rightarrow> stmt" where
  "ex_for k = For ex_i (IntImm (dt_Int 64) 0) ex_n k (Evaluate (Var ex_i)) None []"

definition ex_rewrite_n :: rewriter where
  "ex_rewrite_n stk v =
     (if v = TVar ''n'' (dt_Int 64) then Some (IntImm (dt_Int 64) 16) else None)"

text \<open>
  An analyzer that records what is replayed into it, in order, and proves the expressions
  that were entered as constraints; a set of three facts, one of each kind.
\<close>

datatype replayed = Entered expr | BoundValue tvar expr | BoundRange tvar Range

definition recording :: "replayed list Analyzer" where
  "recording =
     \<lparr>az_new = [],
      EnterConstraint = (\<lambda>e az. az @ [Entered e]),
      Bind_value = (\<lambda>v e az. az @ [BoundValue v e]),
      Bind_range = (\<lambda>v r az. az @ [BoundRange v r]),
      az_CanProve = (\<lambda>az e. Entered e \<in> set az)\<rparr>"

definition ex_set :: ConstrSet where
  "ex_set =
     \<lparr>constrs = [ConstrExpr ex_cond True,
                 ConstrBindValue (TVar ''y'' (dt_Int 32)) ex_seven,
                 ConstrBindRange ex_i (FromMinExtent (IntImm (dt_Int 64) 0) ex_n)]\<rparr>"

section \<open>Scoped walks\<close>

lemma events_wreturn [simp]: "events (wreturn x stk) = []"
  by (simp add: wreturn_def)

lemma outcome_wreturn [simp]: "outcome (wreturn x stk) = Inr x"
  by (simp add: wreturn_def)

lemma events_wthrow [simp]: "events (wthrow e stk) = []"
  by (simp add: wthrow_def)

lemma outcome_wthrow [simp]: "outcome (wthrow e stk) = Inl e"
  by (simp add: wthrow_def)

lemma events_observe [simp]: "events (observe ev stk) = [ev stk]"
  by (simp add: observe_def)

lemma outcome_observe [simp]: "outcome (observe ev stk) = Inr ()"
  by (simp add: observe_def)

lemma stack_after_observe [simp]: "stack_after (observe ev stk) = stk"
  by (simp add: observe_def)

lemma after_Nil [simp]: "after w (\<lambda>x. []) = events w"
  by (simp add: after_def split: sum.splits)

lemma events_wbind:
  "events (wbind m f stk) = after (m stk) (\<lambda>x. events (f x (stack_after (m stk))))"
  by (cases "m stk") (auto simp: wbind_def after_def split: sum.splits prod.splits)

lemma outcome_wbind:
  "outcome (wbind m f stk) =
     (case outcome (m stk) of Inl e \<Rightarrow> Inl e | Inr x \<Rightarrow> outcome (f x (stack_after (m stk))))"
  by (cases "m stk") (auto simp: wbind_def split: sum.splits prod.splits)

lemma events_with_guard [simp]: "events (with_guard c m stk) = events (m (stk @ [c]))"
  by (cases "m (stk @ [c])") (simp add: with_guard_def MakeGuard_def)

lemma outcome_with_guard [simp]: "outcome (with_guard c m stk) = outcome (m (stk @ [c]))"
  by (cases "m (stk @ [c])") (simp add: with_guard_def MakeGuard_def)

lemma after_with_guard [simp]: "after (with_guard c m stk) k = after (m (stk @ [c])) k"
  by (simp add: after_def)

lemma events_if_wreturn [simp]: "events ((if b then wreturn x else wreturn y) stk) = []"
  by simp

lemma outcome_if_wreturn [simp]:
  "outcome ((if b then wreturn x else wreturn y) stk) = Inr (if b then x else y)"
  by simp

lemma scoped_wreturn [simp, intro!]: "scoped (wreturn x)"
  by (simp add: scoped_def wreturn_def)

lemma scoped_wthrow [simp, intro!]: "scoped (wthrow e)"
  by (simp add: scoped_def wthrow_def)

lemma scoped_observe_expr [simp, intro!]: "scoped (observe (ExprEvent e))"
  by (simp add: scoped_def observe_def)

lemma scoped_observe_stmt [simp, intro!]: "scoped (observe (StmtEvent s))"
  by (simp add: scoped_def observe_def)

lemma scoped_visit_var [simp, intro!]: "scoped (visit_var rw v)"
  by (simp add: scoped_def visit_var_def split: option.splits)

text \<open>Sequencing keeps walks scoped: the second part starts from the stack the first left.\<close>

lemma scoped_wbind [intro!]:
  assumes "scoped m" and "\<And>x. scoped (f x)"
  shows "scoped (wbind m f)"
  unfolding scoped_def
proof (intro allI)
  fix stk
  obtain r evs stk' where m: "m stk = (r, evs, stk')" by (cases "m stk") auto
  from assms(1) m have stk': "stk' = stk" and evs: "\<forall>ev \<in> set evs. prefix stk (stack_at ev)"
    by (auto simp: scoped_def dest: spec [of _ stk])
  show "stack_after (wbind m f stk) = stk \<and>
        (\<forall>ev \<in> set (events (wbind m f stk)). prefix stk (stack_at ev))"
  proof (cases r)
    case (Inl e)
    with m stk' evs show ?thesis by (simp add: wbind_def)
  next
    case (Inr x)
    obtain r2 evs2 stk2 where f: "f x stk = (r2, evs2, stk2)" by (cases "f x stk") auto
    from assms(2) [of x] f have "stk2 = stk" and "\<forall>ev \<in> set evs2. prefix stk (stack_at ev)"
      by (auto simp: scoped_def dest: spec [of _ stk])
    with m stk' evs Inr f show ?thesis by (auto simp: wbind_def)
  qed
qed

text \<open>
  A guarded block is scoped when its body is: the body ends with the guard's fact on top,
  and that is what \<^verbatim>\<open>pop_back\<close> removes.
\<close>

lemma scoped_with_guard [intro!]:
  assumes "scoped m"
  shows "scoped (with_guard c m)"
  unfolding scoped_def
proof (intro allI)
  fix stk
  obtain r evs stk' where m: "m (stk @ [c]) = (r, evs, stk')" by (cases "m (stk @ [c])") auto
  from assms m have "stk' = stk @ [c]" and "\<forall>ev \<in> set evs. prefix (stk @ [c]) (stack_at ev)"
    by (auto simp: scoped_def dest: spec [of _ "stk @ [c]"])
  with m show "stack_after (with_guard c m stk) = stk \<and>
        (\<forall>ev \<in> set (events (with_guard c m stk)). prefix stk (stack_at ev))"
    by (auto simp: with_guard_def MakeGuard_def pop_back_def dest: append_prefixD)
qed

lemma scoped_cv_VisitArray:
  "(\<And>x. x \<in> set es \<Longrightarrow> scoped (cv_VisitExpr x)) \<Longrightarrow> scoped (cv_VisitArray es)"
  by (induction es) (auto simp del: cv_VisitExpr.simps)

lemma scoped_cv_expr_nodes:
  "scoped (cv_VisitExpr_node e) \<and> scoped (cv_Base_VisitExpr_node e)"
proof (induction e)
  case (Call t op args)
  have "\<And>x. x \<in> set args \<Longrightarrow> scoped (cv_VisitExpr x)"
    using Call by auto
  then show ?case
    by (auto simp del: cv_VisitExpr.simps split: list.splits intro!: scoped_cv_VisitArray)
qed auto

lemma scoped_cv_VisitExpr_node: "scoped (cv_VisitExpr_node e)"
  by (simp add: scoped_cv_expr_nodes)

lemma scoped_cv_VisitExpr: "scoped (cv_VisitExpr e)"
  by (auto simp: scoped_cv_VisitExpr_node)

lemma scoped_cv_VisitIfThenElseExpr: "scoped (cv_VisitIfThenElseExpr c t f)"
  by (auto simp: scoped_cv_VisitExpr simp del: cv_VisitExpr.simps)

lemma scoped_cv_stmt_nodes:
  "scoped (cv_VisitStmt_node s) \<and> scoped (cv_Base_VisitStmt_node s)"
proof (induction s)
  case (AttrStmt nd key val body)
  then show ?case
    by (auto simp: scoped_cv_VisitExpr Let_def simp del: cv_VisitExpr.simps
          split: ObjectRef.splits)
next
  case (IfThenElse c t e)
  then show ?case
    by (cases e) (auto simp: scoped_cv_VisitExpr simp del: cv_VisitExpr.simps)
qed (auto simp: scoped_cv_VisitExpr simp del: cv_VisitExpr.simps)

lemma scoped_cv_VisitStmt: "scoped (cv_VisitStmt s)"
  by (auto simp: scoped_cv_stmt_nodes)

lemma scoped_cm_MutateArray:
  "(\<And>x. x \<in> set es \<Longrightarrow> scoped (cm_VisitExpr rw x)) \<Longrightarrow> scoped (cm_MutateArray rw es)"
  by (induction es) (auto simp del: cm_VisitExpr.simps)

lemma scoped_cm_expr_nodes:
  "scoped (cm_VisitExpr_node rw e) \<and> scoped (cm_Base_VisitExpr_node rw e)"
proof (induction e)
  case (Call t op args)
  have "\<And>x. x \<in> set args \<Longrightarrow> scoped (cm_VisitExpr rw x)"
    using Call by auto
  then show ?case
    by (auto simp del: cm_VisitExpr.simps split: list.splits intro!: scoped_cm_MutateArray)
qed auto

lemma scoped_cm_VisitExpr_node: "scoped (cm_VisitExpr_node rw e)"
  by (simp add: scoped_cm_expr_nodes)

lemma scoped_cm_VisitExpr: "scoped (cm_VisitExpr rw e)"
  by (auto simp: scoped_cm_VisitExpr_node)

lemma scoped_cm_VisitIfThenElseExpr: "scoped (cm_VisitIfThenElseExpr rw c t f)"
  by (auto simp: scoped_cm_VisitExpr simp del: cm_VisitExpr.simps)

lemma scoped_cm_VisitStmt_node: "scoped (cm_VisitStmt_node rw s)"
proof (induction s)
  case (AttrStmt nd key val body)
  then show ?case
    by (auto simp: scoped_cm_VisitExpr Let_def simp del: cm_VisitExpr.simps
          split: ObjectRef.splits)
next
  case (IfThenElse c t e)
  then show ?case
    by (cases e) (auto simp: scoped_cm_VisitExpr simp del: cm_VisitExpr.simps)
qed (auto simp: scoped_cm_VisitExpr simp del: cm_VisitExpr.simps)

lemma scoped_cm_VisitStmt: "scoped (cm_VisitStmt rw s)"
  by (auto simp: scoped_cm_VisitStmt_node)

lemma scoped_stack_after: "scoped m \<Longrightarrow> stack_after (m stk) = stk"
  by (simp add: scoped_def)

lemma scoped_prefix: "scoped m \<Longrightarrow> ev \<in> set (events (m stk)) \<Longrightarrow> prefix stk (stack_at ev)"
  by (simp add: scoped_def)

lemmas stack_after_walks =
  scoped_cv_VisitExpr [THEN scoped_stack_after]
  scoped_cv_VisitExpr_node [THEN scoped_stack_after]
  scoped_cv_VisitIfThenElseExpr [THEN scoped_stack_after]
  scoped_cv_VisitStmt [THEN scoped_stack_after]
  scoped_cm_VisitExpr [THEN scoped_stack_after]
  scoped_cm_VisitExpr_node [THEN scoped_stack_after]
  scoped_cm_VisitIfThenElseExpr [THEN scoped_stack_after]
  scoped_cm_VisitStmt [THEN scoped_stack_after]
  scoped_cm_VisitStmt_node [THEN scoped_stack_after]

lemmas walk_defs =
  wbind_def wreturn_def wthrow_def observe_def with_guard_def MakeGuard_def pop_back_def
  visit_var_def no_rewrite_def GetRef_def New_def make_zero_def make_const_def

section \<open>References returned by the mutator\<close>

text \<open>
  When a visit of the mutator answers that it returned the object it was given, the node it
  returned is the tree it was given.
\<close>

lemma outcome_visit_var:
  "outcome (visit_var rw v stk) = Inr r \<Longrightarrow> same_as r \<Longrightarrow> node r = Var v"
  by (auto simp: visit_var_def GetRef_def New_def split: option.splits)

lemma outcome_cm_VisitExpr:
  "outcome (cm_VisitExpr rw e stk) = outcome (cm_VisitExpr_node rw e stk)"
  by (simp add: outcome_wbind)

lemma outcome_cm_VisitStmt:
  "outcome (cm_VisitStmt rw s stk) = outcome (cm_VisitStmt_node rw s stk)"
  by (simp add: outcome_wbind)

lemma same_cm_MutateArray:
  "(\<And>x stk r. x \<in> set es \<Longrightarrow> outcome (cm_VisitExpr_node rw x stk) = Inr r \<Longrightarrow> same_as r
      \<Longrightarrow> node r = x) \<Longrightarrow>
   outcome (cm_MutateArray rw es stk) = Inr r \<Longrightarrow> same_as r \<Longrightarrow> node r = es"
proof (induction es arbitrary: stk r)
  case Nil
  then show ?case by (auto simp: GetRef_def)
next
  case (Cons a as)
  then show ?case
    by (auto simp: outcome_wbind outcome_cm_VisitExpr stack_after_walks
          simp del: cm_VisitExpr.simps split: sum.splits)
qed

lemma same_cm_expr_nodes:
  "(outcome (cm_VisitExpr_node rw e stk) = Inr r \<longrightarrow> same_as r \<longrightarrow> node r = e) \<and>
   (outcome (cm_Base_VisitExpr_node rw e stk) = Inr r \<longrightarrow> same_as r \<longrightarrow> node r = e)"
proof (induction e arbitrary: stk r)
  case (Var v)
  then show ?case by (auto dest: outcome_visit_var)
next
  case (Call t op args)
  have "\<And>x stk r. x \<in> set args \<Longrightarrow> outcome (cm_VisitExpr_node rw x stk) = Inr r \<Longrightarrow> same_as r
      \<Longrightarrow> node r = x"
    using Call by blast
  from same_cm_MutateArray [OF this] show ?case
    by (auto simp: outcome_wbind outcome_cm_VisitExpr stack_after_walks GetRef_def New_def
          simp del: cm_VisitExpr.simps split: sum.splits list.splits if_splits)
qed (auto simp: outcome_wbind outcome_cm_VisitExpr stack_after_walks GetRef_def New_def
       simp del: cm_VisitExpr.simps split: sum.splits if_splits)

lemma same_cm_VisitExpr:
  "outcome (cm_VisitExpr rw e stk) = Inr r \<Longrightarrow> same_as r \<Longrightarrow> node r = e"
  by (simp add: outcome_cm_VisitExpr same_cm_expr_nodes del: cm_VisitExpr.simps)

lemma same_cm_VisitStmt:
  "outcome (cm_VisitStmt rw s stk) = Inr r \<Longrightarrow> same_as r \<Longrightarrow> node r = s"
  unfolding outcome_cm_VisitStmt
  by (cases s)
     (auto simp: outcome_wbind stack_after_walks GetRef_def New_def Let_def
        simp del: cm_VisitExpr.simps cm_VisitStmt.simps
        split: sum.splits if_splits option.splits ObjectRef.splits)

section \<open>Facts and fact sets\<close>

lemma Populate_loop_foldl:
  "Populate_loop A cs az = foldl (\<lambda>az c. Populate A c az) az cs"
  by (induction cs arbitrary: az) simp_all

text \<open>
  C8. \<^verbatim>\<open>ToGenericConstr\<close> returns the stored expression of a plain fact, the expression
  \<^verbatim>\<open>var == value\<close> of a value binding and the conjunction
  \<^verbatim>\<open>var >= min && var < min + extent\<close> of a range binding.
\<close>

theorem ToGenericConstr_by_kind:
  "ToGenericConstr (ConstrExpr e a) = e \<and>
   ToGenericConstr (ConstrBindValue v e) = EQ (Var v) e \<and>
   ToGenericConstr (ConstrBindRange v (FromMinExtent m x)) =
     And (GE (Var v) m) (LT (Var v) (Add m x))"
  by simp

text \<open>
  C9. Whatever the fact \<open>f\<close> and the mapping \<open>m\<close>, \<^verbatim>\<open>f.Substitute(m)\<close> is a plain fact, not an
  assumption, and its expression is \<^verbatim>\<open>f.ToGenericConstr()\<close> with \<open>m\<close> applied; this holds
  for every substitution function in the place of TVM's.
\<close>

theorem Substitute_plain_fact:
  "kind (Substitute subst m f) = kConstr \<and>
   is_assume (Substitute subst m f) = False \<and>
   ToGenericConstr (Substitute subst m f) = subst m (ToGenericConstr f)"
  by (simp add: Substitute_def)

text \<open>
  C10. A call of \<^verbatim>\<open>CanProve\<close> answers with the verdict of a default-constructed analyzer
  into which the facts of the set were replayed front to back: a plain fact by
  \<^verbatim>\<open>EnterConstraint\<close>, a value binding and a range binding by \<^verbatim>\<open>Bind\<close>, a fact added later
  after every earlier one. After the call the set is the set it was and every analyzer
  that was alive at the call is as it was: the call leaves all the objects it can reach
  unchanged, and the verdict does not depend on the analyzers alive at the call.
\<close>

theorem CanProve_local_analyzer:
  "CanProve A e \<sigma> =
     (az_CanProve A (foldl (\<lambda>az c. Populate A c az) (az_new A) (constrs (constr_set \<sigma>))) e, \<sigma>) \<and>
   Populate A (ConstrExpr val a) az = EnterConstraint A val az \<and>
   Populate A (ConstrBindValue v val) az = Bind_value A v val az \<and>
   Populate A (ConstrBindRange v r) az = Bind_range A v r az \<and>
   ConstrSet_Populate A (AddConstr c S) az = Populate A c (ConstrSet_Populate A S az)"
  by (simp add: CanProve_def Populate_ref_def ConstrSet_Populate_def AddConstr_def
        Populate_loop_foldl Let_def)

text \<open>
  On the set \<open>ex_set\<close>, with an analyzer alive at the call in which \<^verbatim>\<open>7\<close> was entered: the
  recording analyzer holds the three facts in the order of the set after \<^verbatim>\<open>Populate\<close>;
  \<^verbatim>\<open>CanProve\<close> proves \<^verbatim>\<open>x > 0\<close>, which is in the set, and does not prove \<^verbatim>\<open>7\<close>, which only the
  other analyzer knows; the set and the other analyzer are unchanged.
\<close>

theorem CanProve_local_analyzer_witness:
  "ConstrSet_Populate recording ex_set [] =
     [Entered ex_cond, BoundValue (TVar ''y'' (dt_Int 32)) ex_seven,
      BoundRange ex_i (FromMinExtent (IntImm (dt_Int 64) 0) ex_n)] \<and>
   CanProve recording ex_cond \<lparr>constr_set = ex_set, analyzers = [[Entered ex_seven]]\<rparr> =
     (True, \<lparr>constr_set = ex_set, analyzers = [[Entered ex_seven]]\<rparr>) \<and>
   CanProve recording ex_seven \<lparr>constr_set = ex_set, analyzers = [[Entered ex_seven]]\<rparr> =
     (False, \<lparr>constr_set = ex_set, analyzers = [[Entered ex_seven]]\<rparr>)"
  using CanProve_local_analyzer
    [where A = recording and e = ex_cond
       and \<sigma> = "\<lparr>constr_set = ex_set, analyzers = [[Entered ex_seven]]\<rparr>"]
    CanProve_local_analyzer
    [where A = recording and e = ex_seven
       and \<sigma> = "\<lparr>constr_set = ex_set, analyzers = [[Entered ex_seven]]\<rparr>"]
  by (simp add: recording_def ex_set_def ex_cond_def ex_seven_def ex_x_def ex_i_def ex_n_def
        ConstrSet_Populate_def)
section \<open>The walkers\<close>

lemma tir_Not_neq: "tir_Not e \<noteq> e"
proof
  assume "tir_Not e = e"
  then have "size (tir_Not e) = size e" by simp
  then show False by simp
qed

text \<open>
  C6. After a walk by either walker the constraint stack is the one the walk started
  with, whatever the tree, whatever the starting stack and whether the walk returned or
  threw; a walk started with the empty stack ends with the empty stack. The same holds
  of every guarded block around a walk: the fact its guard pushed is the one its guard
  pops. On the tree \<open>ex_throwing\<close> both walks throw below the guard of the \<^verbatim>\<open>LetStmt\<close>, and
  both end with the empty stack.
\<close>

theorem constr_stack_balanced:
  "stack_after (cv_VisitStmt s stk) = stk \<and>
   stack_after (cv_VisitExpr e stk) = stk \<and>
   stack_after (cm_VisitStmt rw s stk) = stk \<and>
   stack_after (cm_VisitExpr rw e stk) = stk \<and>
   stack_after (cv_VisitStmt s []) = [] \<and>
   stack_after (cv_VisitExpr e []) = [] \<and>
   stack_after (cm_VisitStmt rw s []) = [] \<and>
   stack_after (cm_VisitExpr rw e []) = [] \<and>
   stack_after (with_guard c (cv_VisitStmt s) stk) = stk \<and>
   stack_after (with_guard c (cv_VisitExpr e) stk) = stk \<and>
   stack_after (with_guard c (cm_VisitStmt rw s) stk) = stk \<and>
   stack_after (with_guard c (cm_VisitExpr rw e) stk) = stk \<and>
   outcome (cv_VisitStmt ex_throwing []) = Inl DowncastError \<and>
   outcome (cm_VisitStmt no_rewrite ex_throwing []) = Inl DowncastError"
proof -
  have "outcome (cv_VisitStmt ex_throwing []) = Inl DowncastError"
    and "outcome (cm_VisitStmt no_rewrite ex_throwing []) = Inl DowncastError"
    by (simp_all add: ex_throwing_def ex_seven_def ex_body_def ex_x_def walk_defs)
  then show ?thesis
    by (simp add: stack_after_walks
          scoped_with_guard [OF scoped_cv_VisitStmt, THEN scoped_stack_after]
          scoped_with_guard [OF scoped_cv_VisitExpr, THEN scoped_stack_after]
          scoped_with_guard [OF scoped_cm_VisitStmt, THEN scoped_stack_after]
          scoped_with_guard [OF scoped_cm_VisitExpr, THEN scoped_stack_after]
          del: cv_VisitExpr.simps cv_VisitStmt.simps cm_VisitExpr.simps cm_VisitStmt.simps)
qed

text \<open>
  C7. Entered with the stack \<open>stk\<close>, the \<^verbatim>\<open>ForNode\<close> visit of either walker visits the loop
  body with exactly two facts on top of \<open>stk\<close>: the range binding of the loop variable to
  \<^verbatim>\<open>Range::FromMinExtent(min, extent)\<close> and above it the plain fact \<^verbatim>\<open>extent > 0\<close>, the zero
  being of the type of the extent (in the mutator, of the bounds as rewritten). The body
  node is observed with that stack, and every visit inside the body sees that stack below
  whatever the body's own constructs pushed. Nothing of this depends on the loop kind: the
  visitor's visit is the same walk for every kind, and the mutator's visits differ only in
  the kind copied into the node they return.
\<close>

theorem For_body_under_two_facts:
  "events (cv_VisitStmt_node (For v mn ex k body tb an) stk) =
     (let S = stk @ [ConstrBindRange v (FromMinExtent mn ex),
                     ConstrExpr (GT ex (IntImm (dtype ex) 0)) False]
      in after (cv_VisitExpr mn S) (\<lambda>_.
         after (cv_VisitExpr ex S) (\<lambda>_.
           StmtEvent body S # events (cv_VisitStmt_node body S)))) \<and>
   events (cm_VisitStmt_node rw (For v mn ex k body tb an) stk) =
     after (cm_VisitExpr rw mn stk) (\<lambda>mn'.
     after (cm_VisitExpr rw ex stk) (\<lambda>ex'.
       let S = stk @ [ConstrBindRange v (FromMinExtent (node mn') (node ex')),
                      ConstrExpr (GT (node ex') (IntImm (dtype (node ex')) 0)) False]
       in StmtEvent body S # events (cm_VisitStmt_node rw body S))) \<and>
   cv_VisitStmt_node (For v mn ex k body tb an) = cv_VisitStmt_node (For v mn ex k' body tb an) \<and>
   events (cm_VisitStmt_node rw (For v mn ex k body tb an) stk) =
     events (cm_VisitStmt_node rw (For v mn ex k' body tb an) stk) \<and>
   stack_after (cm_VisitStmt_node rw (For v mn ex k body tb an) stk) =
     stack_after (cm_VisitStmt_node rw (For v mn ex k' body tb an) stk) \<and>
   map_sum id same_as (outcome (cm_VisitStmt_node rw (For v mn ex k body tb an) stk)) =
     map_sum id same_as (outcome (cm_VisitStmt_node rw (For v mn ex k' body tb an) stk)) \<and>
   (\<forall>ev \<in> set (events (cv_VisitStmt_node body (stk @ [f1, f2]))).
      prefix (stk @ [f1, f2]) (stack_at ev)) \<and>
   (\<forall>ev \<in> set (events (cm_VisitStmt_node rw body (stk @ [f1, f2]))).
      prefix (stk @ [f1, f2]) (stack_at ev))"
proof -
  have a: "events (cv_VisitStmt_node (For v mn ex k body tb an) stk) =
     (let S = stk @ [ConstrBindRange v (FromMinExtent mn ex),
                     ConstrExpr (GT ex (IntImm (dtype ex) 0)) False]
      in after (cv_VisitExpr mn S) (\<lambda>_.
         after (cv_VisitExpr ex S) (\<lambda>_.
           StmtEvent body S # events (cv_VisitStmt_node body S))))"
    by (simp add: events_wbind stack_after_walks Let_def make_const_def after_def
          del: cv_VisitExpr.simps)
  have b: "events (cm_VisitStmt_node rw (For v mn ex k body tb an) stk) =
     after (cm_VisitExpr rw mn stk) (\<lambda>mn'.
     after (cm_VisitExpr rw ex stk) (\<lambda>ex'.
       let S = stk @ [ConstrBindRange v (FromMinExtent (node mn') (node ex')),
                      ConstrExpr (GT (node ex') (IntImm (dtype (node ex')) 0)) False]
       in StmtEvent body S # events (cm_VisitStmt_node rw body S)))" for k
    by (simp add: events_wbind stack_after_walks Let_def make_const_def after_def
          del: cm_VisitExpr.simps)
  have c: "cv_VisitStmt_node (For v mn ex k body tb an) =
           cv_VisitStmt_node (For v mn ex k' body tb an)"
    by simp
  have d: "map_sum id same_as (outcome (cm_VisitStmt_node rw (For v mn ex k body tb an) stk)) =
     map_sum id same_as (outcome (cm_VisitStmt_node rw (For v mn ex k' body tb an) stk))"
    by (simp add: outcome_wbind stack_after_walks GetRef_def New_def
          del: cm_VisitExpr.simps cm_VisitStmt.simps split: sum.splits)
  have e: "stack_after (cm_VisitStmt_node rw (For v mn ex k body tb an) stk) =
     stack_after (cm_VisitStmt_node rw (For v mn ex k' body tb an) stk)"
    by (simp only: stack_after_walks)
  have f: "\<forall>ev \<in> set (events (cv_VisitStmt_node body (stk @ [f1, f2]))).
      prefix (stk @ [f1, f2]) (stack_at ev)"
    using scoped_prefix [OF scoped_cv_stmt_nodes [THEN conjunct1]] by blast
  have g: "\<forall>ev \<in> set (events (cm_VisitStmt_node rw body (stk @ [f1, f2]))).
      prefix (stk @ [f1, f2]) (stack_at ev)"
    using scoped_prefix [OF scoped_cm_VisitStmt_node] by blast
  from a b [of k] b [of k'] c d e f g show ?thesis
    by (intro conjI) (simp_all only:)
qed

text \<open>
  The loops of \<open>ex_for\<close>, walked from the empty stack. The visitor observes the body of
  the parallel and of the serial loop with the binding of \<^verbatim>\<open>i\<close> to \<open>[0, n)\<close> and \<^verbatim>\<open>n > 0\<close>
  (a 64-bit zero) on the stack, and so does the mutator for the vectorized loop, after it
  rewrote the bounds from the empty stack. When the pass puts \<open>16\<close> in the place of \<^verbatim>\<open>n\<close>,
  the body is observed with the binding to \<open>[0, 16)\<close> and \<^verbatim>\<open>16 > 0\<close>, and the loop comes back
  as a new node with the extent \<open>16\<close> and its kind.
\<close>

theorem For_body_under_two_facts_witness:
  "events (cv_VisitStmt (ex_for kParallel) []) =
     [StmtEvent (ex_for kParallel) [],
      ExprEvent (IntImm (dt_Int 64) 0)
        [ConstrBindRange ex_i (FromMinExtent (IntImm (dt_Int 64) 0) ex_n),
         ConstrExpr (GT ex_n (IntImm (dt_Int 64) 0)) False],
      ExprEvent ex_n
        [ConstrBindRange ex_i (FromMinExtent (IntImm (dt_Int 64) 0) ex_n),
         ConstrExpr (GT ex_n (IntImm (dt_Int 64) 0)) False],
      StmtEvent (Evaluate (Var ex_i))
        [ConstrBindRange ex_i (FromMinExtent (IntImm (dt_Int 64) 0) ex_n),
         ConstrExpr (GT ex_n (IntImm (dt_Int 64) 0)) False],
      ExprEvent (Var ex_i)
        [ConstrBindRange ex_i (FromMinExtent (IntImm (dt_Int 64) 0) ex_n),
         ConstrExpr (GT ex_n (IntImm (dt_Int 64) 0)) False]] \<and>
   tl (events (cv_VisitStmt (ex_for kSerial) [])) =
     tl (events (cv_VisitStmt (ex_for kParallel) [])) \<and>
   events (cm_VisitStmt no_rewrite (ex_for kVectorized) []) =
     [StmtEvent (ex_for kVectorized) [],
      ExprEvent (IntImm (dt_Int 64) 0) [],
      ExprEvent ex_n [],
      StmtEvent (Evaluate (Var ex_i))
        [ConstrBindRange ex_i (FromMinExtent (IntImm (dt_Int 64) 0) ex_n),
         ConstrExpr (GT ex_n (IntImm (dt_Int 64) 0)) False],
      ExprEvent (Var ex_i)
        [ConstrBindRange ex_i (FromMinExtent (IntImm (dt_Int 64) 0) ex_n),
         ConstrExpr (GT ex_n (IntImm (dt_Int 64) 0)) False]] \<and>
   tl (events (cm_VisitStmt no_rewrite (ex_for kSerial) [])) =
     tl (events (cm_VisitStmt no_rewrite (ex_for kVectorized) [])) \<and>
   events (cm_VisitStmt ex_rewrite_n (ex_for kSerial) []) =
     [StmtEvent (ex_for kSerial) [],
      ExprEvent (IntImm (dt_Int 64) 0) [],
      ExprEvent ex_n [],
      StmtEvent (Evaluate (Var ex_i))
        [ConstrBindRange ex_i (FromMinExtent (IntImm (dt_Int 64) 0) (IntImm (dt_Int 64) 16)),
         ConstrExpr (GT (IntImm (dt_Int 64) 16) (IntImm (dt_Int 64) 0)) False],
      ExprEvent (Var ex_i)
        [ConstrBindRange ex_i (FromMinExtent (IntImm (dt_Int 64) 0) (IntImm (dt_Int 64) 16)),
         ConstrExpr (GT (IntImm (dt_Int 64) 16) (IntImm (dt_Int 64) 0)) False]] \<and>
   outcome (cm_VisitStmt ex_rewrite_n (ex_for kSerial) []) =
     Inr (Visited (For ex_i (IntImm (dt_Int 64) 0) (IntImm (dt_Int 64) 16) kSerial
                     (Evaluate (Var ex_i)) None []) False) \<and>
   ExprEvent (Var ex_i)
        [ConstrBindRange ex_i (FromMinExtent (IntImm (dt_Int 64) 0) ex_n),
         ConstrExpr (GT ex_n (IntImm (dt_Int 64) 0)) False]
     \<in> set (events (cv_VisitStmt_node (Evaluate (Var ex_i))
           ([] @ [ConstrBindRange ex_i (FromMinExtent (IntImm (dt_Int 64) 0) ex_n),
                  ConstrExpr (GT ex_n (IntImm (dt_Int 64) 0)) False]))) \<and>
   prefix ([] @ [ConstrBindRange ex_i (FromMinExtent (IntImm (dt_Int 64) 0) ex_n),
                 ConstrExpr (GT ex_n (IntImm (dt_Int 64) 0)) False])
     (stack_at (ExprEvent (Var ex_i)
        [ConstrBindRange ex_i (FromMinExtent (IntImm (dt_Int 64) 0) ex_n),
         ConstrExpr (GT ex_n (IntImm (dt_Int 64) 0)) False]))"
proof -
  have closed: ?thesis
    by (simp add: ex_for_def ex_i_def ex_n_def ex_rewrite_n_def walk_defs after_def)
  have member: "ExprEvent (Var ex_i)
        [ConstrBindRange ex_i (FromMinExtent (IntImm (dt_Int 64) 0) ex_n),
         ConstrExpr (GT ex_n (IntImm (dt_Int 64) 0)) False]
     \<in> set (events (cv_VisitStmt_node (Evaluate (Var ex_i))
           ([] @ [ConstrBindRange ex_i (FromMinExtent (IntImm (dt_Int 64) 0) ex_n),
                  ConstrExpr (GT ex_n (IntImm (dt_Int 64) 0)) False])))"
    by (simp add: walk_defs)
  note For_body_under_two_facts
    [where v = ex_i and mn = "IntImm (dt_Int 64) 0" and ex = ex_n and k = kParallel
       and k' = kSerial and body = "Evaluate (Var ex_i)" and tb = None and an = "[]"
       and stk = "[]" and rw = no_rewrite
       and ?f1.0 = "ConstrBindRange ex_i (FromMinExtent (IntImm (dt_Int 64) 0) ex_n)"
       and ?f2.0 = "ConstrExpr (GT ex_n (IntImm (dt_Int 64) 0)) False"]
  then have "\<forall>ev \<in> set (events (cv_VisitStmt_node (Evaluate (Var ex_i))
           ([] @ [ConstrBindRange ex_i (FromMinExtent (IntImm (dt_Int 64) 0) ex_n),
                  ConstrExpr (GT ex_n (IntImm (dt_Int 64) 0)) False]))).
      prefix ([] @ [ConstrBindRange ex_i (FromMinExtent (IntImm (dt_Int 64) 0) ex_n),
                    ConstrExpr (GT ex_n (IntImm (dt_Int 64) 0)) False]) (stack_at ev)"
    by (elim conjE)
  from this member
  have "prefix ([] @ [ConstrBindRange ex_i (FromMinExtent (IntImm (dt_Int 64) 0) ex_n),
                      ConstrExpr (GT ex_n (IntImm (dt_Int 64) 0)) False])
     (stack_at (ExprEvent (Var ex_i)
        [ConstrBindRange ex_i (FromMinExtent (IntImm (dt_Int 64) 0) ex_n),
         ConstrExpr (GT ex_n (IntImm (dt_Int 64) 0)) False]))"
    by (rule bspec)
  from this closed show ?thesis
    by - (rule closed)
qed

text \<open>
  C5. At a branch point entered with the stack \<open>stk\<close> (a conditional value, through
  \<^verbatim>\<open>VisitIfThenElseExpr\<close>, or an \<^verbatim>\<open>IfThenElse\<close> statement with an else branch) both walkers
  walk the true branch from \<open>stk\<close> with the fact \<^verbatim>\<open>cond\<close> on top, and then, if that walk
  returned, the false branch from \<open>stk\<close> with the fact \<^verbatim>\<open>Not(cond)\<close> on top: the first fact
  has been popped when the second is pushed, and the two are different facts. Every visit
  inside the true branch sees \<open>stk\<close> and \<^verbatim>\<open>cond\<close> below whatever its own ancestors pushed,
  every visit inside the false branch sees \<open>stk\<close> and \<^verbatim>\<open>Not(cond)\<close> there: the place on the
  stack that this branch point fills never holds both. In the mutator \<^verbatim>\<open>cond\<close> is the
  rewritten condition.
\<close>

theorem branch_facts_never_together:
  "events (cv_VisitIfThenElseExpr c t f stk) =
     after (cv_VisitExpr t (stk @ [ConstrExpr c False])) (\<lambda>_.
       events (cv_VisitExpr f (stk @ [ConstrExpr (tir_Not c) False]))) \<and>
   events (cv_VisitStmt_node (IfThenElse c th (Some el)) stk) =
     after (cv_VisitStmt th (stk @ [ConstrExpr c False])) (\<lambda>_.
       events (cv_VisitStmt el (stk @ [ConstrExpr (tir_Not c) False]))) \<and>
   events (cm_VisitIfThenElseExpr rw c t f stk) =
     after (cm_VisitExpr rw c stk) (\<lambda>c'.
     after (cm_VisitExpr rw t (stk @ [ConstrExpr (node c') False])) (\<lambda>_.
       events (cm_VisitExpr rw f (stk @ [ConstrExpr (tir_Not (node c')) False])))) \<and>
   events (cm_VisitStmt_node rw (IfThenElse c th (Some el)) stk) =
     after (cm_VisitExpr rw c stk) (\<lambda>c'.
     after (cm_VisitStmt rw th (stk @ [ConstrExpr (node c') False])) (\<lambda>_.
       events (cm_VisitStmt rw el (stk @ [ConstrExpr (tir_Not (node c')) False])))) \<and>
   ConstrExpr (tir_Not x) False \<noteq> ConstrExpr x False \<and>
   (\<forall>ev \<in> set (events (cv_VisitExpr e (stk @ [fc]))). prefix (stk @ [fc]) (stack_at ev)) \<and>
   (\<forall>ev \<in> set (events (cv_VisitStmt s (stk @ [fc]))). prefix (stk @ [fc]) (stack_at ev)) \<and>
   (\<forall>ev \<in> set (events (cm_VisitExpr rw e (stk @ [fc]))). prefix (stk @ [fc]) (stack_at ev)) \<and>
   (\<forall>ev \<in> set (events (cm_VisitStmt rw s (stk @ [fc]))). prefix (stk @ [fc]) (stack_at ev))"
proof -
  have a: "events (cv_VisitIfThenElseExpr c t f stk) =
     after (cv_VisitExpr t (stk @ [ConstrExpr c False])) (\<lambda>_.
       events (cv_VisitExpr f (stk @ [ConstrExpr (tir_Not c) False])))"
    by (simp add: events_wbind
          scoped_with_guard [OF scoped_cv_VisitExpr, THEN scoped_stack_after]
          del: cv_VisitExpr.simps)
  have b: "events (cv_VisitStmt_node (IfThenElse c th (Some el)) stk) =
     after (cv_VisitStmt th (stk @ [ConstrExpr c False])) (\<lambda>_.
       events (cv_VisitStmt el (stk @ [ConstrExpr (tir_Not c) False])))"
    by (simp add: events_wbind
          scoped_with_guard [OF scoped_cv_VisitStmt, THEN scoped_stack_after]
          del: cv_VisitStmt.simps)
  have c: "events (cm_VisitIfThenElseExpr rw c t f stk) =
     after (cm_VisitExpr rw c stk) (\<lambda>c'.
     after (cm_VisitExpr rw t (stk @ [ConstrExpr (node c') False])) (\<lambda>_.
       events (cm_VisitExpr rw f (stk @ [ConstrExpr (tir_Not (node c')) False]))))"
    by (simp add: events_wbind stack_after_walks
          scoped_with_guard [OF scoped_cm_VisitExpr, THEN scoped_stack_after]
          del: cm_VisitExpr.simps)
  have d: "events (cm_VisitStmt_node rw (IfThenElse c th (Some el)) stk) =
     after (cm_VisitExpr rw c stk) (\<lambda>c'.
     after (cm_VisitStmt rw th (stk @ [ConstrExpr (node c') False])) (\<lambda>_.
       events (cm_VisitStmt rw el (stk @ [ConstrExpr (tir_Not (node c')) False]))))"
    by (simp add: events_wbind stack_after_walks
          scoped_with_guard [OF scoped_cm_VisitStmt, THEN scoped_stack_after]
          del: cm_VisitExpr.simps cm_VisitStmt.simps)
  have e: "ConstrExpr (tir_Not x) False \<noteq> ConstrExpr x False"
    by (simp add: tir_Not_neq)
  show ?thesis
    using a b c d e
      scoped_prefix [OF scoped_cv_VisitExpr, of _ e "stk @ [fc]"]
      scoped_prefix [OF scoped_cv_VisitStmt, of _ s "stk @ [fc]"]
      scoped_prefix [OF scoped_cm_VisitExpr, of _ rw e "stk @ [fc]"]
      scoped_prefix [OF scoped_cm_VisitStmt, of _ rw s "stk @ [fc]"]
    by blast
qed

theorem branch_facts_never_together_witness:
  "events (cv_VisitIfThenElseExpr ex_cond ex_x ex_seven []) =
     [ExprEvent ex_x [ConstrExpr ex_cond False],
      ExprEvent ex_seven [ConstrExpr (tir_Not ex_cond) False]] \<and>
   events (cm_VisitStmt_node no_rewrite (IfThenElse ex_cond ex_body (Some (Evaluate ex_seven))) []) =
     [ExprEvent ex_cond [], ExprEvent ex_x [], ExprEvent (IntImm (dt_Int 32) 0) [],
      StmtEvent ex_body [ConstrExpr ex_cond False],
      ExprEvent ex_x [ConstrExpr ex_cond False],
      StmtEvent (Evaluate ex_seven) [ConstrExpr (tir_Not ex_cond) False],
      ExprEvent ex_seven [ConstrExpr (tir_Not ex_cond) False]] \<and>
   ExprEvent ex_x [ConstrExpr ex_cond False]
     \<in> set (events (cv_VisitExpr ex_x ([] @ [ConstrExpr ex_cond False]))) \<and>
   prefix ([] @ [ConstrExpr ex_cond False]) (stack_at (ExprEvent ex_x [ConstrExpr ex_cond False]))"
  using branch_facts_never_together
    [where c = ex_cond and t = ex_x and f = ex_seven and stk = "[]" and th = ex_body
       and el = "Evaluate ex_seven" and rw = no_rewrite and x = ex_cond and e = ex_x
       and fc = "ConstrExpr ex_cond False" and s = ex_body]
  by (simp add: ex_cond_def ex_x_def ex_seven_def ex_body_def walk_defs after_def)

text \<open>
  C4, as the code has it. Entered with the stack \<open>stk\<close>, the \<^verbatim>\<open>AssertStmtNode\<close> visit of
  either walker visits the message and then the body from \<open>stk\<close> with the fact of the
  condition on top; the guard is pushed before the message is visited, not after.
  \<^verbatim>\<open>ConstrMutator\<close> rewrites the condition from \<open>stk\<close> itself, before it pushes, and the fact
  is the rewritten condition. (\<^verbatim>\<open>ConstrVisitor\<close> pushes first and hands the whole node to
  the base visit.)
\<close>

theorem Assert_message_and_body_under_fact:
  "events (cv_VisitStmt_node (AssertStmt c m b) stk) =
     (let S = stk @ [ConstrExpr c False]
      in after (cv_VisitExpr c S) (\<lambda>_.
         after (cv_VisitExpr m S) (\<lambda>_. events (cv_VisitStmt b S)))) \<and>
   events (cm_VisitStmt_node rw (AssertStmt c m b) stk) =
     after (cm_VisitExpr rw c stk) (\<lambda>c'.
       let S = stk @ [ConstrExpr (node c') False]
       in after (cm_VisitExpr rw m S) (\<lambda>_. events (cm_VisitStmt rw b S)))"
proof -
  have a: "events (cv_VisitStmt_node (AssertStmt c m b) stk) =
     (let S = stk @ [ConstrExpr c False]
      in after (cv_VisitExpr c S) (\<lambda>_.
         after (cv_VisitExpr m S) (\<lambda>_. events (cv_VisitStmt b S))))"
    by (simp add: events_wbind stack_after_walks Let_def
          del: cv_VisitExpr.simps cv_VisitStmt.simps)
  have b: "events (cm_VisitStmt_node rw (AssertStmt c m b) stk) =
     after (cm_VisitExpr rw c stk) (\<lambda>c'.
       let S = stk @ [ConstrExpr (node c') False]
       in after (cm_VisitExpr rw m S) (\<lambda>_. events (cm_VisitStmt rw b S)))"
    by (simp add: events_wbind stack_after_walks Let_def
          del: cm_VisitExpr.simps cm_VisitStmt.simps)
  from a b show ?thesis by (rule conjI)
qed

text \<open>
  C4, as the claim states it, fails on \<^verbatim>\<open>assert(x > 0, "x must be positive")\<close> over the body
  \<^verbatim>\<open>Evaluate(x)\<close>, walked from the empty stack: the message is visited with the fact
  \<^verbatim>\<open>x > 0\<close> on the stack by both walkers (and so is the condition by \<^verbatim>\<open>ConstrVisitor\<close>), so
  the visits are not those of a walk that sees the condition and the message from the
  empty stack and pushes the fact for the body only.
\<close>

theorem Assert_message_unguarded_counterexample:
  "events (cv_VisitStmt ex_assert []) =
     [StmtEvent ex_assert [],
      ExprEvent ex_cond [ConstrExpr ex_cond False],
      ExprEvent ex_x [ConstrExpr ex_cond False],
      ExprEvent (IntImm (dt_Int 32) 0) [ConstrExpr ex_cond False],
      ExprEvent (StringImm ''x must be positive'') [ConstrExpr ex_cond False],
      StmtEvent ex_body [ConstrExpr ex_cond False],
      ExprEvent ex_x [ConstrExpr ex_cond False]] \<and>
   events (cm_VisitStmt no_rewrite ex_assert []) =
     [StmtEvent ex_assert [],
      ExprEvent ex_cond [],
      ExprEvent ex_x [],
      ExprEvent (IntImm (dt_Int 32) 0) [],
      ExprEvent (StringImm ''x must be positive'') [ConstrExpr ex_cond False],
      StmtEvent ex_body [ConstrExpr ex_cond False],
      ExprEvent ex_x [ConstrExpr ex_cond False]] \<and>
   events (cv_VisitStmt_node ex_assert []) \<noteq>
     after (cv_VisitExpr ex_cond []) (\<lambda>_.
     after (cv_VisitExpr (StringImm ''x must be positive'') []) (\<lambda>_.
       events (cv_VisitStmt ex_body [ConstrExpr ex_cond False]))) \<and>
   events (cm_VisitStmt_node no_rewrite ex_assert []) \<noteq>
     after (cm_VisitExpr no_rewrite ex_cond []) (\<lambda>c'.
     after (cm_VisitExpr no_rewrite (StringImm ''x must be positive'') []) (\<lambda>_.
       events (cm_VisitStmt no_rewrite ex_body [ConstrExpr (node c') False])))"
  by (simp add: ex_assert_def ex_cond_def ex_x_def ex_body_def walk_defs after_def)

text \<open>
  C1 fails on the code. \<^verbatim>\<open>ConstrMutator\<close> without overrides rewrites nothing: the condition
  \<^verbatim>\<open>x > 0\<close>, \<^verbatim>\<open>x\<close> and \<^verbatim>\<open>7\<close> each come back as the object that was visited. Yet the visit of
  \<^verbatim>\<open>select(x > 0, x, 7)\<close> returns a new object, and so does the visit of the call
  \<^verbatim>\<open>tir.if_then_else(x > 0, x, 7)\<close>, which even comes back as a \<^verbatim>\<open>Select\<close> node: both
  branches of the test in \<^verbatim>\<open>VisitIfThenElseExpr\<close> construct. No visit of a conditional value
  ever returns the object it was given, whatever the subclass rewrites. The statement
  visits do return it: the \<^verbatim>\<open>IfThenElse\<close> statement over the same unchanged parts comes
  back as the same object. A statement that holds a conditional value is rebuilt with it:
  \<^verbatim>\<open>Evaluate(select(x > 0, x, 7))\<close> comes back as a new object.
\<close>

theorem Select_rebuilt_though_unchanged:
  "outcome (cm_VisitExpr no_rewrite ex_cond []) = Inr (Visited ex_cond True) \<and>
   outcome (cm_VisitExpr no_rewrite ex_x [ConstrExpr ex_cond False]) =
     Inr (Visited ex_x True) \<and>
   outcome (cm_VisitExpr no_rewrite ex_seven [ConstrExpr (tir_Not ex_cond) False]) =
     Inr (Visited ex_seven True) \<and>
   outcome (cm_VisitExpr no_rewrite ex_select []) = Inr (Visited ex_select False) \<and>
   outcome (cm_VisitExpr no_rewrite ex_call []) = Inr (Visited ex_select False) \<and>
   outcome (cm_VisitStmt no_rewrite ex_if []) = Inr (Visited ex_if True) \<and>
   outcome (cm_VisitStmt no_rewrite (Evaluate ex_select) []) =
     Inr (Visited (Evaluate ex_select) False) \<and>
   (case outcome (cm_VisitIfThenElseExpr rw c t f stk) of
      Inl err \<Rightarrow> True
    | Inr r \<Rightarrow> same_as r = False)"
proof -
  have "case outcome (cm_VisitIfThenElseExpr rw c t f stk) of
      Inl err \<Rightarrow> True
    | Inr r \<Rightarrow> same_as r = False"
    by (simp add: outcome_wbind New_def del: cm_VisitExpr.simps split: sum.splits)
  then show ?thesis
    by (simp add: ex_cond_def ex_x_def ex_seven_def ex_select_def ex_call_def ex_if_def
          ex_body_def walk_defs)
qed

text \<open>
  C2 fails on the code. \<^verbatim>\<open>ConstrMutator::VisitStmt_(AttrStmtNode)\<close> rewrites the value and
  the body first, from the stack it was entered with, and makes its guard afterwards, in a
  block that ends at once: whatever the attribute, the body is walked from the entry stack
  with nothing on top. On \<^verbatim>\<open>attr [x > 0] "tl.assume"\<close> and on a thread extent of 128, each
  walked from the empty stack, every visit inside the body sees the empty stack.
  \<^verbatim>\<open>ConstrVisitor\<close> walks the same assume with the assumption on the stack.
\<close>

theorem AttrStmt_body_rewritten_without_fact:
  "events (cm_VisitStmt_node rw (AttrStmt nd key val body) stk) =
     after (cm_VisitExpr rw val stk) (\<lambda>_. events (cm_VisitStmt rw body stk)) \<and>
   events (cm_VisitStmt no_rewrite ex_assume []) =
     [StmtEvent ex_assume [], ExprEvent (IntImm (dt_Int 32) 1) [],
      StmtEvent ex_body [], ExprEvent ex_x []] \<and>
   events (cm_VisitStmt no_rewrite ex_threads []) =
     [StmtEvent ex_threads [], ExprEvent (IntImm (dt_Int 32) 128) [],
      StmtEvent (Evaluate (Var (TVar ''tx'' (dt_Int 32)))) [],
      ExprEvent (Var (TVar ''tx'' (dt_Int 32))) []] \<and>
   events (cv_VisitStmt ex_assume []) =
     [StmtEvent ex_assume [],
      ExprEvent (IntImm (dt_Int 32) 1) [ConstrExpr ex_cond True],
      StmtEvent ex_body [ConstrExpr ex_cond True],
      ExprEvent ex_x [ConstrExpr ex_cond True]]"
proof -
  have "events (cm_VisitStmt_node rw (AttrStmt nd key val body) stk) =
     after (cm_VisitExpr rw val stk) (\<lambda>_. events (cm_VisitStmt rw body stk))"
    by (simp add: events_wbind stack_after_walks Let_def after_def
          del: cm_VisitExpr.simps cm_VisitStmt.simps split: sum.splits ObjectRef.splits)
  then show ?thesis
    by (simp add: ex_assume_def ex_threads_def ex_cond_def ex_x_def ex_body_def walk_defs)
qed

text \<open>
  C3 fails on the code. \<^verbatim>\<open>ConstrVisitor::VisitIfThenElseExpr\<close> visits the true value and the
  false value and nothing else: walking \<^verbatim>\<open>select(x > 0, x, 7)\<close> or the call
  \<^verbatim>\<open>tir.if_then_else(x > 0, x, 7)\<close> visits \<^verbatim>\<open>x\<close> and \<^verbatim>\<open>7\<close>, and neither the condition
  \<^verbatim>\<open>x > 0\<close> nor its operands. \<^verbatim>\<open>ConstrMutator\<close> does visit them, first and from the entry
  stack.
\<close>

theorem Select_condition_never_visited:
  "events (cv_VisitExpr ex_select []) =
     [ExprEvent ex_select [],
      ExprEvent ex_x [ConstrExpr ex_cond False],
      ExprEvent ex_seven [ConstrExpr (tir_Not ex_cond) False]] \<and>
   events (cv_VisitExpr ex_call []) =
     [ExprEvent ex_call [],
      ExprEvent ex_x [ConstrExpr ex_cond False],
      ExprEvent ex_seven [ConstrExpr (tir_Not ex_cond) False]] \<and>
   events (cm_VisitExpr no_rewrite ex_select []) =
     [ExprEvent ex_select [],
      ExprEvent ex_cond [], ExprEvent ex_x [], ExprEvent (IntImm (dt_Int 32) 0) [],
      ExprEvent ex_x [ConstrExpr ex_cond False],
      ExprEvent ex_seven [ConstrExpr (tir_Not ex_cond) False]]"
  by (simp add: ex_select_def ex_call_def ex_cond_def ex_x_def ex_seven_def walk_defs)

end
